theory Spec2Isabelle
  imports Main
begin

section \<open>Data model (src/models/user\_model.py)\<close>

text \<open>
  A \<^verbatim>\<open>datetime\<close> is modelled as the number of microseconds since the epoch (the
  resolution of Python's datetime), a \<^verbatim>\<open>timedelta\<close> as a number of microseconds.
  A nullable column is an \<open>option\<close>, \<open>None\<close> being SQL NULL.
\<close>

type_synonym datetime = int

definition timedelta_days :: "int \<Rightarrow> int" where
  "timedelta_days d = d * 86400000000"

datatype UserRole = USER | ADMIN

record User =
  u_id :: nat
  username :: string
  email :: string
  hash_password :: string
  role :: UserRole
  avatar :: "string option"
  confirmed :: bool

record RefreshToken =
  rt_id :: nat
  user_id :: nat
  token_hash :: string
  created_at :: datetime
  expired_at :: datetime
  revoked_at :: "datetime option"
  ip_address :: "string option"
  user_agent :: "string option"

text \<open>
  Every raise of the modelled code is a value: the HTTP errors of the routes carry their
  status code and detail, the others are the exceptions of Python and SQLAlchemy and the
  error taxonomy of the specification.
\<close>

datatype error =
    HTTPException nat string
  | AttributeError
  | MultipleResultsFound
  | IntegrityError
  | DBAPIError
  | Unauthorized
  | InvalidSignature
  | Expired
  | Malformed

section \<open>Query results\<close>

text \<open>\<^verbatim>\<open>Result.scalars().first()\<close>: the first row of the result, or None.\<close>

definition first :: "'a list \<Rightarrow> 'a option" where
  "first xs = (case xs of [] \<Rightarrow> None | x # _ \<Rightarrow> Some x)"

text \<open>
  \<^verbatim>\<open>Result.scalar_one_or_none()\<close>: None for no row, the row when there is exactly one,
  and MultipleResultsFound otherwise.
\<close>

definition scalar_one_or_none :: "'a list \<Rightarrow> error + 'a option" where
  "scalar_one_or_none xs =
     (case xs of [] \<Rightarrow> Inr None
      | [x] \<Rightarrow> Inr (Some x)
      | _ \<Rightarrow> Inl MultipleResultsFound)"

section \<open>SQL conditions\<close>

text \<open>
  The sweeper's statement is raw SQL over a nullable column, so its WHERE clause is
  evaluated in SQL's three-valued logic: \<open>None\<close> is UNKNOWN, a comparison with NULL is
  UNKNOWN, and a row is selected only when the clause is TRUE. AND binds tighter than OR.
\<close>

type_synonym sql_bool = "bool option"

definition sql_lt :: "int option \<Rightarrow> int option \<Rightarrow> sql_bool" where
  "sql_lt a b = (case a of None \<Rightarrow> None
                 | Some x \<Rightarrow> (case b of None \<Rightarrow> None | Some y \<Rightarrow> Some (x < y)))"

definition sql_is_not_null :: "'a option \<Rightarrow> sql_bool" where
  "sql_is_not_null a = Some (a \<noteq> None)"

fun sql_and :: "sql_bool \<Rightarrow> sql_bool \<Rightarrow> sql_bool" where
  "sql_and (Some False) _ = Some False"
| "sql_and _ (Some False) = Some False"
| "sql_and (Some True) (Some True) = Some True"
| "sql_and _ _ = None"

fun sql_or :: "sql_bool \<Rightarrow> sql_bool \<Rightarrow> sql_bool" where
  "sql_or (Some True) _ = Some True"
| "sql_or _ (Some True) = Some True"
| "sql_or (Some False) (Some False) = Some False"
| "sql_or _ _ = None"

section \<open>Refresh token repository (src/repositories/refresh\_token\_repo.py)\<close>

text \<open>
  The table \<^verbatim>\<open>refresh_tokens\<close> is the list of its rows. The repository methods take the
  table and the values the source reads from its environment (the clock), and return the
  new table where the source commits a change.
\<close>

definition get_by_token_hash :: "RefreshToken list \<Rightarrow> string \<Rightarrow> RefreshToken option" where
  "get_by_token_hash rows h = first (filter (\<lambda>r. token_hash r = h) rows)"

definition get_active_token ::
  "RefreshToken list \<Rightarrow> string \<Rightarrow> datetime \<Rightarrow> RefreshToken option" where
  "get_active_token rows h current_time =
     first (filter (\<lambda>r. token_hash r = h \<and> expired_at r > current_time
                          \<and> revoked_at r = None) rows)"

text \<open>
  Modelled from the spec: the primary key that the insert of \<^verbatim>\<open>BaseRepository.create\<close>
  assigns (src/repositories/base\_repo.py is not among the sources; the table is
  \<^verbatim>\<open>refresh_tokens(id, ...)\<close> with \<^verbatim>\<open>id\<close> its key): one more than the largest id in
  the table.
\<close>

definition next_id :: "RefreshToken list \<Rightarrow> nat" where
  "next_id rows = Suc (fold max (map rt_id rows) 0)"

text \<open>
  The largest value of an \<^verbatim>\<open>Integer\<close> column (the ids are 32-bit integers in the
  database, unbounded in Python).
\<close>

definition int32_max :: nat where
  "int32_max = 2147483647"

text \<open>
  Modelled from the spec: \<^verbatim>\<open>BaseRepository.create\<close> (src/repositories/base\_repo.py is
  not among the sources). The specification says that \<^verbatim>\<open>save\<close> persists the record and
  returns it, and that the table is
  \<^verbatim>\<open>refresh_tokens(id, user_id FK, token_hash UNIQUE, created_at, expired_at,
  revoked_at NULLABLE, ip_address, user_agent)\<close>; the repository tests and the sibling
  \<^verbatim>\<open>ContactRepository.create_contact\<close> show add, commit, refresh. The insert assigns the
  primary key and is refused by the database, with nothing stored, when a value does not
  fit its column of src/models/user\_model.py (an id beyond 32 bits, an \<^verbatim>\<open>ip_address\<close>
  longer than the 50 characters of \<^verbatim>\<open>String(50)\<close>: DBAPIError) or a constraint is
  violated (the token hash is already stored, UNIQUE; \<^verbatim>\<open>user_id\<close> is not the id of a
  row of \<^verbatim>\<open>users\<close>, FOREIGN KEY: IntegrityError). \<open>us\<close> is the table \<^verbatim>\<open>users\<close>.
\<close>

definition create ::
  "User list \<Rightarrow> RefreshToken list \<Rightarrow> RefreshToken \<Rightarrow> error + (RefreshToken list \<times> RefreshToken)" where
  "create us rows instance =
     (let row = instance\<lparr>rt_id := next_id rows\<rparr> in
      if int32_max < rt_id row \<or> int32_max < user_id row then Inl DBAPIError
      else if (case ip_address row of None \<Rightarrow> False | Some a \<Rightarrow> 50 < length a) then Inl DBAPIError
      else if token_hash row \<in> set (map token_hash rows) then Inl IntegrityError
      else if user_id row \<notin> set (map u_id us) then Inl IntegrityError
      else Inr (rows @ [row], row))"

text \<open>
  \<^verbatim>\<open>save_token\<close> builds the row from its arguments only: \<^verbatim>\<open>revoked_at\<close> is not passed
  to the constructor and the column has no default, so it is NULL; \<^verbatim>\<open>created_at\<close>
  defaults to the time of the insert (\<open>now\<close>); the id is assigned by \<open>create\<close>.
\<close>

definition save_token ::
  "User list \<Rightarrow> RefreshToken list \<Rightarrow> datetime \<Rightarrow> nat \<Rightarrow> string \<Rightarrow> datetime
     \<Rightarrow> string option \<Rightarrow> string option \<Rightarrow> error + (RefreshToken list \<times> RefreshToken)" where
  "save_token us rows now uid h exp_at ip ua =
     create us rows \<lparr>rt_id = 0, user_id = uid, token_hash = h, created_at = now,
                  expired_at = exp_at, revoked_at = None, ip_address = ip, user_agent = ua\<rparr>"

text \<open>
  \<^verbatim>\<open>revoke_token\<close> assigns \<^verbatim>\<open>revoked_at = datetime.now()\<close> on the object and commits:
  the UPDATE writes the changed column of the row with the object's primary key.
\<close>

definition revoke_token :: "RefreshToken list \<Rightarrow> RefreshToken \<Rightarrow> datetime \<Rightarrow> RefreshToken list" where
  "revoke_token rows refresh_token now =
     map (\<lambda>r. if rt_id r = rt_id refresh_token then r\<lparr>revoked_at := Some now\<rparr> else r) rows"

section \<open>Expiry sweeper (main.py)\<close>

text \<open>
  \<^verbatim>\<open>DELETE FROM refresh_tokens WHERE expired_at < :now OR revoked_at IS NOT NULL AND
  revoked_at < :cutoff\<close>, with \<^verbatim>\<open>cutoff = now - timedelta(days=7)\<close>.
\<close>

definition cleanup_where :: "RefreshToken \<Rightarrow> datetime \<Rightarrow> datetime \<Rightarrow> sql_bool" where
  "cleanup_where r now cutoff =
     sql_or (sql_lt (Some (expired_at r)) (Some now))
            (sql_and (sql_is_not_null (revoked_at r)) (sql_lt (revoked_at r) (Some cutoff)))"

definition cleanup_expired_tokens :: "RefreshToken list \<Rightarrow> datetime \<Rightarrow> RefreshToken list" where
  "cleanup_expired_tokens rows now =
     (let cutoff = now - timedelta_days 7
      in filter (\<lambda>r. cleanup_where r now cutoff \<noteq> Some True) rows)"

text \<open>
  The purge condition in the words of the specification: expired before \<open>now\<close>, or
  revoked (not NULL) before \<open>now\<close> minus the retention window of seven days.
\<close>

definition stale :: "RefreshToken \<Rightarrow> datetime \<Rightarrow> bool" where
  "stale r now =
     (expired_at r < now \<or>
      (case revoked_at r of None \<Rightarrow> False | Some t \<Rightarrow> t < now - timedelta_days 7))"

text \<open>A row is active iff \<^verbatim>\<open>revoked_at IS NULL AND expired_at > now\<close>.\<close>

definition active :: "RefreshToken \<Rightarrow> datetime \<Rightarrow> bool" where
  "active r now = (revoked_at r = None \<and> now < expired_at r)"

section \<open>User repository (src/repositories/users\_repo.py)\<close>

definition get_user_by_email :: "User list \<Rightarrow> string \<Rightarrow> error + User option" where
  "get_user_by_email us e = scalar_one_or_none (filter (\<lambda>u. email u = e) us)"

section \<open>State, configuration and requests\<close>

record db =
  users :: "User list"
  refresh_tokens :: "RefreshToken list"

text \<open>
  The settings of src/conf/config.py that the authentication core reads, and the hash
  function that the service applies to a refresh secret (src/services/auth.py is not
  among the sources; the function is a parameter of the model). \<open>reset_token_ttl\<close> is
  the lifetime of a password-reset token, a constant of the absent service.
\<close>

record AuthService =
  SECRET_KEY :: string
  ACCESS_TOKEN_EXPIRE_MINUTES :: int
  REFRESH_TOKEN_EXPIRE_DAYS :: int
  reset_token_ttl :: int
  hash_token :: "string \<Rightarrow> string"

text \<open>
  What a request brings with it: the clock (read once per request in the model), the
  host of \<^verbatim>\<open>request.client\<close> (\<open>None\<close> when \<^verbatim>\<open>request.client\<close> is None, the server
  knowing no client address), the User-Agent header, the base URL, and the random values
  drawn while it is served (the new refresh secret and the new token id). The routes
  always receive a request object.
\<close>

record Request =
  clock :: datetime
  client :: "string option"
  header_user_agent :: "string option"
  base_url :: string
  new_secret :: string
  new_jti :: string

section \<open>Token codec\<close>

text \<open>
  A signed token string is modelled by what it encodes: the key it was signed with and
  its claims. Any other string is \<open>Malformed_token\<close>.
\<close>

record access_claims =
  ac_sub :: string
  ac_jti :: string
  ac_iat :: datetime
  ac_exp :: datetime

record action_claims =
  at_sub :: string
  at_purpose :: string
  at_exp :: datetime

datatype jwt =
    Access_token string access_claims
  | Action_token string action_claims
  | Malformed_token string

text \<open>
  The Token Codec is part of src/services/auth.py, which is not among the sources. By the
  specification it has no side effects: it is a pure function of its input, the
  process-wide secret and the current time.
\<close>

text \<open>
  Modelled from the spec: \<^verbatim>\<open>issue_access(subject, role?, ttl) -> token_string, jti\<close>
  encodes subject, unique jti, issued-at and expiry, and signs with the process secret.
\<close>

definition issue_access :: "string \<Rightarrow> datetime \<Rightarrow> string \<Rightarrow> int \<Rightarrow> string \<Rightarrow> jwt" where
  "issue_access secret t subject ttl jti =
     Access_token secret \<lparr>ac_sub = subject, ac_jti = jti, ac_iat = t, ac_exp = t + ttl\<rparr>"

text \<open>
  Modelled from the spec: \<^verbatim>\<open>decode(token_string) -> claims\<close> fails with
  InvalidSignature, Expired or Malformed on the respective conditions, and otherwise
  returns the claims; a token is valid while its expiry has not passed.
\<close>

definition decode :: "string \<Rightarrow> datetime \<Rightarrow> jwt \<Rightarrow> error + access_claims" where
  "decode secret t tok =
     (case tok of
        Access_token k c \<Rightarrow>
          if k \<noteq> secret then Inl InvalidSignature
          else if ac_exp c \<le> t then Inl Expired
          else Inr c
      | _ \<Rightarrow> Inl Malformed)"

text \<open>
  Modelled from the spec: \<^verbatim>\<open>issue_action(subject_email, purpose, ttl) -> token_string\<close>,
  a signed claim bundle carrying subject, purpose tag and a short expiry.
\<close>

definition issue_action :: "string \<Rightarrow> datetime \<Rightarrow> string \<Rightarrow> string \<Rightarrow> int \<Rightarrow> jwt" where
  "issue_action secret t subject_email purpose ttl =
     Action_token secret \<lparr>at_sub = subject_email, at_purpose = purpose, at_exp = t + ttl\<rparr>"

section \<open>Auth service\<close>

text \<open>
  The routes call methods of \<^verbatim>\<open>AuthService\<close> (src/services/auth.py), which is not
  among the sources; each is modelled from what the specification says of the
  operation.
\<close>

text \<open>
  Modelled from the spec: \<^verbatim>\<open>create_access_token\<close> is the codec's \<^verbatim>\<open>issue_access\<close>
  for the username, with the configured lifetime in minutes.
\<close>

definition create_access_token :: "AuthService \<Rightarrow> Request \<Rightarrow> string \<Rightarrow> jwt" where
  "create_access_token svc req uname =
     issue_access (SECRET_KEY svc) (clock req) uname
       (ACCESS_TOKEN_EXPIRE_MINUTES svc * 60000000) (new_jti req)"

text \<open>
  Modelled from the spec: \<^verbatim>\<open>create_reset_token\<close> issues the action token of
  request-password-reset, with purpose reset.
\<close>

definition create_reset_token :: "AuthService \<Rightarrow> datetime \<Rightarrow> string \<Rightarrow> jwt" where
  "create_reset_token svc t e = issue_action (SECRET_KEY svc) t e ''reset'' (reset_token_ttl svc)"

text \<open>
  Modelled from the spec: \<^verbatim>\<open>create_refresh_token\<close> is the store's
  \<^verbatim>\<open>save(user_id, secret, ttl, ip?, user_agent?)\<close>: only the hash of the secret is
  persisted, the raw secret goes to the caller. The lifetime is the configured number of
  days.
\<close>

definition create_refresh_token ::
  "AuthService \<Rightarrow> db \<Rightarrow> Request \<Rightarrow> nat \<Rightarrow> string option \<Rightarrow> string option \<Rightarrow> error + (db \<times> string)" where
  "create_refresh_token svc d req uid ip ua =
     (case save_token (users d) (refresh_tokens d) (clock req) uid (hash_token svc (new_secret req))
             (clock req + timedelta_days (REFRESH_TOKEN_EXPIRE_DAYS svc)) ip ua of
        Inl e \<Rightarrow> Inl e
      | Inr (rows, _) \<Rightarrow> Inr (d\<lparr>refresh_tokens := rows\<rparr>, new_secret req))"

text \<open>
  Modelled from the spec: reuse-detection hardening, "revoke all other active refresh
  rows for that user", done with the repository's \<^verbatim>\<open>revoke_token\<close> on each such row.
\<close>

definition revoke_other_active :: "RefreshToken list \<Rightarrow> RefreshToken \<Rightarrow> datetime \<Rightarrow> RefreshToken list" where
  "revoke_other_active rows presented t =
     fold (\<lambda>r acc. revoke_token acc r t)
          (filter (\<lambda>r. user_id r = user_id presented \<and> rt_id r \<noteq> rt_id presented \<and> active r t) rows)
          rows"

text \<open>
  Modelled from the spec: \<^verbatim>\<open>validate_refresh_token\<close>. The presented secret must resolve
  to an active row (\<^verbatim>\<open>find_active\<close> hashes the secret and looks it up by hash, filtered
  to active), and the row's user is returned; otherwise Unauthorized, whether the row is
  not found, expired or revoked, and on a revoked-row presentation all other active
  refresh rows of that user are revoked.
\<close>

definition validate_refresh_token :: "AuthService \<Rightarrow> db \<Rightarrow> datetime \<Rightarrow> string \<Rightarrow> db \<times> (error + User)" where
  "validate_refresh_token svc d t secret =
     (let h = hash_token svc secret in
      case get_active_token (refresh_tokens d) h t of
        Some row \<Rightarrow>
          (case first (filter (\<lambda>u. u_id u = user_id row) (users d)) of
             None \<Rightarrow> (d, Inl Unauthorized)
           | Some u \<Rightarrow> (d, Inr u))
      | None \<Rightarrow>
          (case get_by_token_hash (refresh_tokens d) h of
             None \<Rightarrow> (d, Inl Unauthorized)
           | Some row \<Rightarrow>
               if revoked_at row \<noteq> None
               then (d\<lparr>refresh_tokens := revoke_other_active (refresh_tokens d) row t\<rparr>,
                     Inl Unauthorized)
               else (d, Inl Unauthorized)))"

text \<open>
  Modelled from the spec: \<^verbatim>\<open>revoke_refresh_token\<close> revokes the refresh row of the
  presented secret; a missing row is not an error, and the row is revoked only if
  \<^verbatim>\<open>revoked_at IS NULL\<close>.
\<close>

definition revoke_refresh_token :: "AuthService \<Rightarrow> db \<Rightarrow> datetime \<Rightarrow> string \<Rightarrow> db" where
  "revoke_refresh_token svc d t secret =
     (case get_by_token_hash (refresh_tokens d) (hash_token svc secret) of
        None \<Rightarrow> d
      | Some row \<Rightarrow>
          if revoked_at row = None
          then d\<lparr>refresh_tokens := revoke_token (refresh_tokens d) row t\<rparr>
          else d)"

section \<open>Routes (src/routes/auth.py, src/routes/users.py)\<close>

record TokenResponse =
  access_token :: jwt
  token_type :: string
  refresh_token :: string

text \<open>
  A background task \<^verbatim>\<open>send_email(email, username, host)\<close>; the third argument is the
  base URL or the reset link \<^verbatim>\<open>{base_url}api/auth/reset-password?token={token}\<close>.
\<close>

datatype link = Base_url string | Reset_link string jwt

datatype task = Send_email string string link

text \<open>
  \<^verbatim>\<open>refresh\<close>: validate the presented secret, issue the new pair, then revoke the
  presented secret. A raise leaves the route at once, with what was committed so far.
  The arguments of \<^verbatim>\<open>create_refresh_token\<close> are evaluated before the call:
  \<^verbatim>\<open>request.client.host\<close> raises AttributeError when \<^verbatim>\<open>request.client\<close> is None.
\<close>

definition refresh :: "AuthService \<Rightarrow> db \<Rightarrow> Request \<Rightarrow> string \<Rightarrow> db \<times> (error + TokenResponse)" where
  "refresh svc d req presented =
     (case validate_refresh_token svc d (clock req) presented of
        (d1, Inl e) \<Rightarrow> (d1, Inl e)
      | (d1, Inr user) \<Rightarrow>
          (let new_access_token = create_access_token svc req (username user) in
           case client req of
             None \<Rightarrow> (d1, Inl AttributeError)
           | Some host \<Rightarrow>
               (case create_refresh_token svc d1 req (u_id user) (Some host)
                       (header_user_agent req) of
                  Inl e \<Rightarrow> (d1, Inl e)
                | Inr (d2, new_refresh_token) \<Rightarrow>
                    (revoke_refresh_token svc d2 (clock req) presented,
                     Inr \<lparr>access_token = new_access_token, token_type = ''bearer'',
                          refresh_token = new_refresh_token\<rparr>))))"

text \<open>
  \<^verbatim>\<open>request_password_reset\<close>: the result is the error raised, or the background tasks
  added and the message returned.
\<close>

definition request_password_reset ::
  "AuthService \<Rightarrow> db \<Rightarrow> Request \<Rightarrow> string \<Rightarrow> error + (task list \<times> string)" where
  "request_password_reset svc d req body_email =
     (case get_user_by_email (users d) body_email of
        Inl e \<Rightarrow> Inl e
      | Inr None \<Rightarrow> Inl (HTTPException 404 ''User not found'')
      | Inr (Some user) \<Rightarrow>
          (let tok = create_reset_token svc (clock req) (email user);
               reset_link = Reset_link (base_url req) tok
           in Inr ([Send_email (email user) (username user) reset_link],
                   ''Password reset instructions sent to your email'')))"

text \<open>
  \<^verbatim>\<open>request_email\<close> (src/routes/users.py). The lookup of the user service
  (src/services/user.py, absent) is a parameter. Reading \<^verbatim>\<open>user.confirmed\<close> when
  \<^verbatim>\<open>user\<close> is None raises AttributeError; \<^verbatim>\<open>if user:\<close> is the test for not None, a
  model object being truthy.
\<close>

definition getattr_confirmed :: "User option \<Rightarrow> error + bool" where
  "getattr_confirmed user = (case user of None \<Rightarrow> Inl AttributeError | Some u \<Rightarrow> Inr (confirmed u))"

definition request_email ::
  "(string \<Rightarrow> error + User option) \<Rightarrow> Request \<Rightarrow> string \<Rightarrow> error + (task list \<times> string)" where
  "request_email user_service_get_user_by_email req body_email =
     (case user_service_get_user_by_email body_email of
        Inl e \<Rightarrow> Inl e
      | Inr user \<Rightarrow>
          (case getattr_confirmed user of
             Inl e \<Rightarrow> Inl e
           | Inr c \<Rightarrow>
               if c then Inr ([], ''Your email already confirmed'')
               else Inr ((case user of
                            Some u \<Rightarrow> [Send_email (email u) (username u) (Base_url (base_url req))]
                          | None \<Rightarrow> []),
                         ''Check your email'')))"

section \<open>Example states\<close>

text \<open>Concrete rows, users, settings and requests on which the theorems below are run.\<close>

definition row_a :: RefreshToken where
  "row_a = \<lparr>rt_id = 1, user_id = 1, token_hash = ''h1'', created_at = 0, expired_at = 1000,
            revoked_at = Some 5, ip_address = None, user_agent = None\<rparr>"

definition row_b :: RefreshToken where
  "row_b = \<lparr>rt_id = 2, user_id = 1, token_hash = ''h2'', created_at = 0, expired_at = 999,
            revoked_at = None, ip_address = None, user_agent = None\<rparr>"

text \<open>
  The sweeper scenario of the specification, at \<open>sweep_time\<close> (day 30): a row expired eight
  days ago, a row revoked eight days ago, a row revoked six days ago, and an active row.
\<close>

definition sweep_time :: datetime where
  "sweep_time = timedelta_days 30"

definition row_expired8 :: RefreshToken where
  "row_expired8 = \<lparr>rt_id = 1, user_id = 1, token_hash = ''e8'', created_at = 0,
                   expired_at = timedelta_days 22, revoked_at = None,
                   ip_address = None, user_agent = None\<rparr>"

definition row_revoked8 :: RefreshToken where
  "row_revoked8 = \<lparr>rt_id = 2, user_id = 1, token_hash = ''r8'', created_at = 0,
                   expired_at = timedelta_days 40, revoked_at = Some (timedelta_days 22),
                   ip_address = None, user_agent = None\<rparr>"

definition row_revoked6 :: RefreshToken where
  "row_revoked6 = \<lparr>rt_id = 3, user_id = 1, token_hash = ''r6'', created_at = 0,
                   expired_at = timedelta_days 40, revoked_at = Some (timedelta_days 24),
                   ip_address = None, user_agent = None\<rparr>"

definition row_active :: RefreshToken where
  "row_active = \<lparr>rt_id = 4, user_id = 1, token_hash = ''ok'', created_at = 0,
                 expired_at = timedelta_days 40, revoked_at = None,
                 ip_address = None, user_agent = None\<rparr>"

definition svc0 :: AuthService where
  "svc0 = \<lparr>SECRET_KEY = ''k'', ACCESS_TOKEN_EXPIRE_MINUTES = 15, REFRESH_TOKEN_EXPIRE_DAYS = 7,
           reset_token_ttl = 3600000000, hash_token = (\<lambda>s. ''sha:'' @ s)\<rparr>"

definition alice :: User where
  "alice = \<lparr>u_id = 1, username = ''alice'', email = ''alice@x.com'',
            hash_password = ''bcrypt:Secret123'', role = USER, avatar = None, confirmed = True\<rparr>"

definition db_empty :: db where
  "db_empty = \<lparr>users = [], refresh_tokens = []\<rparr>"

definition db_alice :: db where
  "db_alice = \<lparr>users = [alice], refresh_tokens = []\<rparr>"

definition req0 :: Request where
  "req0 = \<lparr>clock = 1000, client = Some ''127.0.0.1'', header_user_agent = None,
           base_url = ''http://h/'', new_secret = ''s2'', new_jti = ''j1''\<rparr>"

text \<open>
  Alice logged in with the refresh secret \<open>s1\<close>; \<open>req0\<close> rotates it into \<open>s2\<close>, and
  \<open>req1\<close> is a later request.
\<close>

definition row_s1 :: RefreshToken where
  "row_s1 = \<lparr>rt_id = 1, user_id = 1, token_hash = ''sha:s1'', created_at = 0, expired_at = 5000,
             revoked_at = None, ip_address = None, user_agent = None\<rparr>"

definition db_login :: db where
  "db_login = \<lparr>users = [alice], refresh_tokens = [row_s1]\<rparr>"

definition db_rotated :: db where
  "db_rotated = \<lparr>users = [alice],
                 refresh_tokens = [row_s1\<lparr>revoked_at := Some 1000\<rparr>,
                   \<lparr>rt_id = 2, user_id = 1, token_hash = ''sha:s2'', created_at = 1000,
                    expired_at = 1000 + timedelta_days 7, revoked_at = None,
                    ip_address = Some ''127.0.0.1'', user_agent = None\<rparr>]\<rparr>"

definition resp_rotated :: TokenResponse where
  "resp_rotated = \<lparr>access_token = Access_token ''k''
                     \<lparr>ac_sub = ''alice'', ac_jti = ''j1'', ac_iat = 1000, ac_exp = 900001000\<rparr>,
                   token_type = ''bearer'', refresh_token = ''s2''\<rparr>"

definition req1 :: Request where
  "req1 = \<lparr>clock = 2000, client = Some ''127.0.0.1'', header_user_agent = None,
           base_url = ''http://h/'', new_secret = ''s3'', new_jti = ''j2''\<rparr>"

text \<open>
  A table where \<open>s1\<close> is already revoked, Alice has another active row and so has a
  second user.
\<close>

definition row_old :: RefreshToken where
  "row_old = \<lparr>rt_id = 1, user_id = 1, token_hash = ''sha:s1'', created_at = 0,
              expired_at = 5000000, revoked_at = Some 1000, ip_address = None, user_agent = None\<rparr>"

definition row_live :: RefreshToken where
  "row_live = \<lparr>rt_id = 2, user_id = 1, token_hash = ''sha:s2'', created_at = 1000,
               expired_at = 5000000, revoked_at = None, ip_address = None, user_agent = None\<rparr>"

definition row_bob :: RefreshToken where
  "row_bob = \<lparr>rt_id = 3, user_id = 2, token_hash = ''sha:b1'', created_at = 1000,
              expired_at = 5000000, revoked_at = None, ip_address = None, user_agent = None\<rparr>"

definition db_reuse :: db where
  "db_reuse = \<lparr>users = [alice], refresh_tokens = [row_old, row_live, row_bob]\<rparr>"

section \<open>Auxiliary facts\<close>

lemma first_None_iff: "first xs = None \<longleftrightarrow> xs = []"
  by (cases xs) (simp_all add: first_def)

lemma first_Some_mem: "first xs = Some x \<Longrightarrow> x \<in> set xs"
  by (cases xs) (auto simp: first_def)

lemma first_filter_Some: "first (filter P xs) = Some x \<Longrightarrow> x \<in> set xs \<and> P x"
  using first_Some_mem[of "filter P xs" x] by simp

lemma first_filter_None: "first (filter P xs) = None \<longleftrightarrow> (\<forall>x\<in>set xs. \<not> P x)"
  by (simp add: first_None_iff filter_empty_conv)

lemma filter_unique:
  "distinct (map f xs) \<Longrightarrow> r \<in> set xs \<Longrightarrow> filter (\<lambda>x. f x = f r \<and> Q x) xs = (if Q r then [r] else [])"
proof (induction xs)
  case Nil
  then show ?case by simp
next
  case (Cons a xs)
  show ?case
  proof (cases "a = r")
    case True
    with Cons.prems have "\<forall>x\<in>set xs. f x \<noteq> f r" by (auto simp: image_iff)
    then have "filter (\<lambda>x. f x = f r \<and> Q x) xs = []" by (simp add: filter_empty_conv)
    with True show ?thesis by simp
  next
    case False
    with Cons.prems have "r \<in> set xs" "distinct (map f xs)" "f a \<noteq> f r" by (auto simp: image_iff)
    with Cons.IH show ?thesis by simp
  qed
qed

lemma distinct_map_eq: "distinct (map f xs) \<Longrightarrow> x \<in> set xs \<Longrightarrow> y \<in> set xs \<Longrightarrow> f x = f y \<Longrightarrow> x = y"
  by (auto simp: distinct_map dest: inj_onD)

lemma sql_and_Some: "sql_and (Some a) (Some b) = Some (a \<and> b)"
  by (cases a; cases b) simp_all

lemma sql_or_Some: "sql_or (Some a) (Some b) = Some (a \<or> b)"
  by (cases a; cases b) simp_all

lemma cleanup_where_stale: "cleanup_where r t (t - timedelta_days 7) = Some (stale r t)"
proof (cases "revoked_at r")
  case None
  then show ?thesis
    by (simp add: cleanup_where_def stale_def sql_lt_def sql_is_not_null_def sql_or_Some)
next
  case (Some a)
  then show ?thesis
    by (simp add: cleanup_where_def stale_def sql_lt_def sql_is_not_null_def sql_or_Some sql_and_Some)
qed

lemma revoke_token_twice: "revoke_token (revoke_token rows rt t) rt t' = revoke_token rows rt t'"
  by (simp add: revoke_token_def)

lemma revoke_token_fixed:
  assumes "rt \<in> set rows" "distinct (map rt_id rows)"
  shows "revoke_token rows rt t = rows \<longleftrightarrow> revoked_at rt = Some t"
proof
  assume "revoke_token rows rt t = rows"
  then have "map (\<lambda>r. if rt_id r = rt_id rt then r\<lparr>revoked_at := Some t\<rparr> else r) rows = map (\<lambda>r. r) rows"
    by (simp add: revoke_token_def)
  with assms(1) have "rt\<lparr>revoked_at := Some t\<rparr> = rt"
    by (auto simp only: map_eq_conv split: if_splits)
  then have "revoked_at (rt\<lparr>revoked_at := Some t\<rparr>) = revoked_at rt" by simp
  then show "revoked_at rt = Some t" by simp
next
  assume h: "revoked_at rt = Some t"
  have "\<forall>r\<in>set rows. (if rt_id r = rt_id rt then r\<lparr>revoked_at := Some t\<rparr> else r) = r"
  proof
    fix r assume r: "r \<in> set rows"
    show "(if rt_id r = rt_id rt then r\<lparr>revoked_at := Some t\<rparr> else r) = r"
    proof (cases "rt_id r = rt_id rt")
      case True
      then have "r = rt" using distinct_map_eq[OF assms(2) r assms(1)] by simp
      with h show ?thesis by simp
    next
      case False
      then show ?thesis by simp
    qed
  qed
  then show "revoke_token rows rt t = rows"
    unfolding revoke_token_def by (simp add: map_idI)
qed

lemma survives_sweep:
  assumes "r \<in> set rows" "t \<le> expired_at r"
    and "\<And>t0. revoked_at r = Some t0 \<Longrightarrow> t - timedelta_days 7 \<le> t0"
  shows "r \<in> set (cleanup_expired_tokens rows t)"
proof -
  have "\<not> stale r t"
    using assms(2,3) by (cases "revoked_at r") (auto simp: stale_def)
  with assms(1) show ?thesis
    by (simp add: cleanup_expired_tokens_def cleanup_where_stale)
qed

lemma expired_purged: "expired_at r < t \<Longrightarrow> r \<notin> set (cleanup_expired_tokens rows t)"
  by (simp add: cleanup_expired_tokens_def cleanup_where_stale stale_def)

lemma survives_sweeps:
  "r \<in> set rows \<Longrightarrow>
   \<forall>t\<in>set sweeps. t \<le> expired_at r \<and> (\<forall>t0. revoked_at r = Some t0 \<longrightarrow> t - timedelta_days 7 \<le> t0) \<Longrightarrow>
   r \<in> set (foldl cleanup_expired_tokens rows sweeps)"
proof (induction sweeps arbitrary: rows)
  case Nil
  then show ?case by simp
next
  case (Cons t ts)
  have "r \<in> set (cleanup_expired_tokens rows t)"
    using Cons.prems by (intro survives_sweep) auto
  then show ?case using Cons.IH Cons.prems(2) by simp
qed

lemma fold_max_ge: "(a::nat) \<le> fold max xs a"
proof (induction xs arbitrary: a)
  case Nil
  then show ?case by simp
next
  case (Cons x xs)
  have "a \<le> max x a" by simp
  also have "\<dots> \<le> fold max xs (max x a)" by (rule Cons.IH)
  finally show ?case by simp
qed

lemma fold_max_mem: "x \<in> set xs \<Longrightarrow> (x::nat) \<le> fold max xs a"
proof (induction xs arbitrary: a)
  case Nil
  then show ?case by simp
next
  case (Cons y ys)
  show ?case
  proof (cases "x = y")
    case True
    have "x \<le> max y a" using True by simp
    also have "\<dots> \<le> fold max ys (max y a)" by (rule fold_max_ge)
    finally show ?thesis by simp
  next
    case False
    with Cons.prems have "x \<in> set ys" by simp
    then show ?thesis using Cons.IH by simp
  qed
qed

lemma next_id_fresh: "r \<in> set rows \<Longrightarrow> rt_id r < next_id rows"
  using fold_max_mem[of "rt_id r" "map rt_id rows" 0] by (simp add: next_id_def less_Suc_eq_le)

lemma get_by_token_hash_unique:
  assumes "distinct (map token_hash rows)" "r \<in> set rows"
  shows "get_by_token_hash rows (token_hash r) = Some r"
proof -
  have "filter (\<lambda>x. token_hash x = token_hash r \<and> True) rows = (if True then [r] else [])"
    using filter_unique[OF assms, of "\<lambda>_. True"] .
  then show ?thesis by (simp add: get_by_token_hash_def first_def)
qed

lemma get_active_token_unique:
  assumes "distinct (map token_hash rows)" "r \<in> set rows"
  shows "get_active_token rows (token_hash r) t
         = (if t < expired_at r \<and> revoked_at r = None then Some r else None)"
proof -
  have "filter (\<lambda>x. token_hash x = token_hash r \<and> (t < expired_at x \<and> revoked_at x = None)) rows
        = (if t < expired_at r \<and> revoked_at r = None then [r] else [])"
    using filter_unique[OF assms] .
  then show ?thesis by (auto simp: get_active_token_def first_def)
qed

lemma get_active_token_Some:
  "get_active_token rows h t = Some r \<Longrightarrow>
     r \<in> set rows \<and> token_hash r = h \<and> t < expired_at r \<and> revoked_at r = None"
  unfolding get_active_token_def by (auto dest: first_filter_Some)

lemma revoke_fold_map:
  "fold (\<lambda>r acc. revoke_token acc r t) ts rows
   = map (\<lambda>r. if rt_id r \<in> rt_id ` set ts then r\<lparr>revoked_at := Some t\<rparr> else r) rows"
proof (induction ts arbitrary: rows)
  case Nil
  then show ?case by simp
next
  case (Cons x ts)
  have "fold (\<lambda>r acc. revoke_token acc r t) (x # ts) rows
        = fold (\<lambda>r acc. revoke_token acc r t) ts (revoke_token rows x t)" by simp
  also have "\<dots> = map (\<lambda>r. if rt_id r \<in> rt_id ` set ts then r\<lparr>revoked_at := Some t\<rparr> else r)
                      (revoke_token rows x t)" by (rule Cons.IH)
  also have "\<dots> = map (\<lambda>r. if rt_id r \<in> rt_id ` set (x # ts) then r\<lparr>revoked_at := Some t\<rparr> else r) rows"
  proof -
    have "(if rt_id (if rt_id r = rt_id x then r\<lparr>revoked_at := Some t\<rparr> else r) \<in> rt_id ` set ts
           then (if rt_id r = rt_id x then r\<lparr>revoked_at := Some t\<rparr> else r)\<lparr>revoked_at := Some t\<rparr>
           else (if rt_id r = rt_id x then r\<lparr>revoked_at := Some t\<rparr> else r))
          = (if rt_id r \<in> rt_id ` set (x # ts) then r\<lparr>revoked_at := Some t\<rparr> else r)" for r
      by (cases "rt_id r = rt_id x") simp_all
    then show ?thesis
      unfolding revoke_token_def map_map comp_def by (intro map_cong refl)
  qed
  finally show ?case .
qed

lemma revoke_other_active_map:
  assumes "distinct (map rt_id rows)"
  shows "revoke_other_active rows presented t
         = map (\<lambda>r. if user_id r = user_id presented \<and> rt_id r \<noteq> rt_id presented \<and> active r t
                     then r\<lparr>revoked_at := Some t\<rparr> else r) rows"
proof -
  let ?P = "\<lambda>r. user_id r = user_id presented \<and> rt_id r \<noteq> rt_id presented \<and> active r t"
  have "rt_id r \<in> rt_id ` set (filter ?P rows) \<longleftrightarrow> ?P r" if r: "r \<in> set rows" for r
  proof
    assume "rt_id r \<in> rt_id ` set (filter ?P rows)"
    then obtain r' where r': "r' \<in> set rows" "?P r'" "rt_id r = rt_id r'" by auto
    have "r' = r" by (rule distinct_map_eq[OF assms r'(1) r r'(3)[symmetric]])
    with r'(2) show "?P r" by blast
  next
    assume "?P r"
    with r show "rt_id r \<in> rt_id ` set (filter ?P rows)" by auto
  qed
  then have "map (\<lambda>r. if rt_id r \<in> rt_id ` set (filter ?P rows) then r\<lparr>revoked_at := Some t\<rparr> else r) rows
             = map (\<lambda>r. if ?P r then r\<lparr>revoked_at := Some t\<rparr> else r) rows"
    by (intro map_cong) auto
  then show ?thesis
    unfolding revoke_other_active_def by (simp only: revoke_fold_map)
qed

lemma validate_reuse:
  assumes "distinct (map token_hash (refresh_tokens d))" "row \<in> set (refresh_tokens d)"
    and "token_hash row = hash_token svc s" "revoked_at row \<noteq> None"
  shows "validate_refresh_token svc d t s
         = (d\<lparr>refresh_tokens := revoke_other_active (refresh_tokens d) row t\<rparr>, Inl Unauthorized)"
proof -
  have a: "get_active_token (refresh_tokens d) (hash_token svc s) t = None"
    using get_active_token_unique[OF assms(1,2), of t] assms(3,4) by simp
  have b: "get_by_token_hash (refresh_tokens d) (hash_token svc s) = Some row"
    using get_by_token_hash_unique[OF assms(1,2)] assms(3) by simp
  show ?thesis
    using assms(4) by (simp add: validate_refresh_token_def a b)
qed

lemma validate_Inr:
  assumes "validate_refresh_token svc d t s = (d1, Inr u)"
  shows "d1 = d \<and> (\<exists>row. get_active_token (refresh_tokens d) (hash_token svc s) t = Some row
                    \<and> first (filter (\<lambda>u. u_id u = user_id row) (users d)) = Some u)"
  using assms
  by (auto simp: validate_refresh_token_def Let_def split: option.splits if_splits)

lemma validate_None:
  assumes "get_active_token (refresh_tokens d) (hash_token svc s) t = None"
  shows "snd (validate_refresh_token svc d t s) = Inl Unauthorized"
  using assms by (simp add: validate_refresh_token_def Let_def split: option.splits)

lemma validate_active:
  assumes "get_active_token (refresh_tokens d) (hash_token svc s) t = Some row"
    and "first (filter (\<lambda>u. u_id u = user_id row) (users d)) = Some u"
  shows "validate_refresh_token svc d t s = (d, Inr u)"
  using assms by (simp add: validate_refresh_token_def Let_def)

lemma refresh_validate_fails:
  assumes "snd (validate_refresh_token svc d (clock req) s) = Inl e"
  shows "snd (refresh svc d req s) = Inl e"
proof -
  obtain d1 r where v: "validate_refresh_token svc d (clock req) s = (d1, r)"
    by (cases "validate_refresh_token svc d (clock req) s")
  with assms have "r = Inl e" by simp
  with v show ?thesis by (simp add: refresh_def)
qed

lemma save_token_Inr:
  assumes "save_token us rows t uid h exp_at ip ua = Inr (rows', row)"
  shows "h \<notin> token_hash ` set rows \<and> uid \<in> u_id ` set us
     \<and> rows' = rows @ [row]
     \<and> row = \<lparr>rt_id = next_id rows, user_id = uid, token_hash = h, created_at = t,
               expired_at = exp_at, revoked_at = None, ip_address = ip, user_agent = ua\<rparr>"
  using assms by (auto simp: save_token_def create_def Let_def split: if_splits)

lemma create_refresh_token_Inr:
  assumes "create_refresh_token svc d req uid ip ua = Inr (d2, sec)"
  shows "hash_token svc (new_secret req) \<notin> token_hash ` set (refresh_tokens d)
     \<and> sec = new_secret req
     \<and> d2 = d\<lparr>refresh_tokens := refresh_tokens d @
            [\<lparr>rt_id = next_id (refresh_tokens d), user_id = uid,
              token_hash = hash_token svc (new_secret req), created_at = clock req,
              expired_at = clock req + timedelta_days (REFRESH_TOKEN_EXPIRE_DAYS svc),
              revoked_at = None, ip_address = ip, user_agent = ua\<rparr>]\<rparr>"
proof -
  let ?row = "\<lparr>rt_id = next_id (refresh_tokens d), user_id = uid,
              token_hash = hash_token svc (new_secret req), created_at = clock req,
              expired_at = clock req + timedelta_days (REFRESH_TOKEN_EXPIRE_DAYS svc),
              revoked_at = None, ip_address = ip, user_agent = ua\<rparr>"
  from assms obtain rows r where
    s: "save_token (users d) (refresh_tokens d) (clock req) uid (hash_token svc (new_secret req))
          (clock req + timedelta_days (REFRESH_TOKEN_EXPIRE_DAYS svc)) ip ua = Inr (rows, r)"
    and d2: "d2 = d\<lparr>refresh_tokens := rows\<rparr>" and sec: "sec = new_secret req"
    by (auto simp: create_refresh_token_def split: sum.splits)
  from save_token_Inr[OF s] have "hash_token svc (new_secret req) \<notin> token_hash ` set (refresh_tokens d)"
    and "rows = refresh_tokens d @ [?row]"
    by simp_all
  with d2 sec show ?thesis by simp
qed

lemma refresh_success:
  assumes "refresh svc d req s = (d', Inr resp)"
  shows "\<exists>row user.
      get_active_token (refresh_tokens d) (hash_token svc s) (clock req) = Some row
    \<and> first (filter (\<lambda>u. u_id u = user_id row) (users d)) = Some user
    \<and> hash_token svc (new_secret req) \<notin> token_hash ` set (refresh_tokens d)
    \<and> d' = revoke_refresh_token svc
             (d\<lparr>refresh_tokens := refresh_tokens d @
                [\<lparr>rt_id = next_id (refresh_tokens d), user_id = u_id user,
                  token_hash = hash_token svc (new_secret req), created_at = clock req,
                  expired_at = clock req + timedelta_days (REFRESH_TOKEN_EXPIRE_DAYS svc),
                  revoked_at = None, ip_address = client req,
                  user_agent = header_user_agent req\<rparr>]\<rparr>)
             (clock req) s
    \<and> resp = \<lparr>access_token = create_access_token svc req (username user),
               token_type = ''bearer'', refresh_token = new_secret req\<rparr>"
proof -
  obtain d1 r where v: "validate_refresh_token svc d (clock req) s = (d1, r)"
    by (cases "validate_refresh_token svc d (clock req) s")
  from assms v obtain user where r: "r = Inr user"
    by (cases r) (auto simp: refresh_def)
  from validate_Inr[OF v[unfolded r]] obtain row where
    d1: "d1 = d" and
    a: "get_active_token (refresh_tokens d) (hash_token svc s) (clock req) = Some row" and
    u: "first (filter (\<lambda>u. u_id u = user_id row) (users d)) = Some user"
    by blast
  from assms v r d1 obtain host where cl: "client req = Some host"
    by (cases "client req") (auto simp: refresh_def Let_def)
  from assms v r d1 cl obtain d2 sec where
    c: "create_refresh_token svc d req (u_id user) (Some host) (header_user_agent req) = Inr (d2, sec)"
    by (auto simp: refresh_def Let_def split: sum.splits)
  from assms v r d1 cl c have
    res: "d' = revoke_refresh_token svc d2 (clock req) s"
         "resp = \<lparr>access_token = create_access_token svc req (username user),
               token_type = ''bearer'', refresh_token = sec\<rparr>"
    by (simp_all add: refresh_def Let_def)
  from create_refresh_token_Inr[OF c] a u res cl show ?thesis by simp
qed

lemma revoke_token_append_fresh:
  assumes "rt_id new \<noteq> rt_id row"
  shows "revoke_token (rows @ [new]) row t = revoke_token rows row t @ [new]"
  using assms by (simp add: revoke_token_def)

lemma rotated_rows:
  assumes dist: "distinct (map token_hash rows)"
    and row: "row \<in> set rows" "revoked_at row = None"
    and fresh: "token_hash new \<notin> token_hash ` set rows" and nid: "rt_id new = next_id rows"
    and d: "refresh_tokens d = rows @ [new]" and h: "hash_token svc s = token_hash row"
  shows "refresh_tokens (revoke_refresh_token svc d t s) = revoke_token rows row t @ [new]"
proof -
  have dist': "distinct (map token_hash (rows @ [new]))" using dist fresh by simp
  have "get_by_token_hash (rows @ [new]) (token_hash row) = Some row"
    using get_by_token_hash_unique[OF dist'] row(1) by simp
  then have "revoke_refresh_token svc d t s = d\<lparr>refresh_tokens := revoke_token (rows @ [new]) row t\<rparr>"
    using row(2) by (simp add: revoke_refresh_token_def d h)
  moreover have "rt_id new \<noteq> rt_id row" using next_id_fresh[OF row(1)] nid by simp
  ultimately show ?thesis by (simp add: revoke_token_append_fresh)
qed

lemma revoke_token_hashes: "map token_hash (revoke_token rows row t) = map token_hash rows"
  by (simp add: revoke_token_def comp_def if_distrib cong: if_cong)

lemma revoke_token_revoked:
  assumes "distinct (map token_hash rows)" "row \<in> set rows"
    and "r \<in> set (revoke_token rows row t)" "token_hash r = token_hash row"
  shows "revoked_at r = Some t"
proof -
  from assms(3) obtain r0 where r0: "r0 \<in> set rows"
    "r = (if rt_id r0 = rt_id row then r0\<lparr>revoked_at := Some t\<rparr> else r0)"
    by (auto simp: revoke_token_def)
  then have "token_hash r0 = token_hash r" by (simp split: if_splits)
  with assms(4) have "token_hash r0 = token_hash row" by simp
  then have "r0 = row" by (rule distinct_map_eq[OF assms(1) r0(1) assms(2)])
  with r0(2) show ?thesis by simp
qed

lemma first_user_again:
  assumes "first (filter (\<lambda>u. u_id u = i) us) = Some user"
  shows "first (filter (\<lambda>u. u_id u = u_id user) us) = Some user"
proof -
  from first_filter_Some[OF assms] have "u_id user = i" by simp
  with assms show ?thesis by simp
qed

lemma decode_issued:
  assumes "t < t0 + ttl"
  shows "decode secret t (issue_access secret t0 subject ttl jti)
         = Inr \<lparr>ac_sub = subject, ac_jti = jti, ac_iat = t0, ac_exp = t0 + ttl\<rparr>"
  using assms by (simp add: decode_def issue_access_def)

lemma revoke_refresh_token_users: "users (revoke_refresh_token svc d t s) = users d"
  by (simp add: revoke_refresh_token_def split: option.splits)

lemma save_token_ok:
  assumes "h \<notin> token_hash ` set rows" "uid \<in> u_id ` set us"
    and "uid \<le> int32_max" "next_id rows \<le> int32_max"
    and "\<forall>a. ip = Some a \<longrightarrow> length a \<le> 50"
  shows "save_token us rows t uid h exp_at ip ua =
     Inr (rows @ [\<lparr>rt_id = next_id rows, user_id = uid, token_hash = h, created_at = t,
               expired_at = exp_at, revoked_at = None, ip_address = ip, user_agent = ua\<rparr>],
          \<lparr>rt_id = next_id rows, user_id = uid, token_hash = h, created_at = t,
               expired_at = exp_at, revoked_at = None, ip_address = ip, user_agent = ua\<rparr>)"
proof -
  have "\<not> (case ip of None \<Rightarrow> False | Some a \<Rightarrow> 50 < length a)"
    using assms(5) by (cases ip) (simp_all add: not_less)
  then show ?thesis
    using assms(1-4) by (simp add: save_token_def create_def Let_def not_less)
qed

lemma get_active_token_appended:
  assumes "token_hash row \<notin> token_hash ` set rows" "revoked_at row = None" "t < expired_at row"
  shows "get_active_token (rows @ [row]) (token_hash row) t = Some row"
proof -
  have "\<forall>x\<in>set rows. token_hash x \<noteq> token_hash row"
  proof
    fix x assume "x \<in> set rows"
    then have "token_hash x \<in> token_hash ` set rows" by (rule imageI)
    with assms(1) show "token_hash x \<noteq> token_hash row" by metis
  qed
  then have "filter (\<lambda>r. token_hash r = token_hash row \<and> t < expired_at r \<and> revoked_at r = None) rows = []"
    by (simp add: filter_empty_conv)
  then show ?thesis using assms(2,3) by (simp add: get_active_token_def first_def)
qed

section \<open>Claims\<close>

text \<open>
  C1, as stated, fails: with no user for the email, \<^verbatim>\<open>request_password_reset\<close> raises
  HTTP 404 "User not found" (the guard \<^verbatim>\<open>if not user: raise HTTPException\<close>).
\<close>

theorem request_password_reset_unknown_counterexample:
  "request_password_reset svc0 db_empty req0 ''nobody@x.com'' = Inl (HTTPException 404 ''User not found'')"
  by (simp add: request_password_reset_def get_user_by_email_def scalar_one_or_none_def db_empty_def)

text \<open>
  C1 (amended): \<^verbatim>\<open>request_password_reset\<close> raises HTTP 404 "User not found" when no
  user has the email, and returns the success message, with the mail to the user queued,
  when exactly one user has it; so a success result tells the caller that the email is
  registered.
\<close>

theorem request_password_reset_reveals:
  "((\<forall>u\<in>set (users d). email u \<noteq> e) \<longrightarrow>
      request_password_reset svc d req e = Inl (HTTPException 404 ''User not found''))
   \<and> (\<forall>u. filter (\<lambda>u. email u = e) (users d) = [u] \<longrightarrow>
        request_password_reset svc d req e =
          Inr ([Send_email e (username u) (Reset_link (base_url req) (create_reset_token svc (clock req) e))],
               ''Password reset instructions sent to your email''))
   \<and> (\<forall>x. request_password_reset svc d req e = Inr x \<longrightarrow> (\<exists>u\<in>set (users d). email u = e))"
proof (intro conjI allI impI)
  assume "\<forall>u\<in>set (users d). email u \<noteq> e"
  then have "filter (\<lambda>u. email u = e) (users d) = []" by (simp add: filter_empty_conv)
  then show "request_password_reset svc d req e = Inl (HTTPException 404 ''User not found'')"
    by (simp add: request_password_reset_def get_user_by_email_def scalar_one_or_none_def)
next
  fix u assume f: "filter (\<lambda>u. email u = e) (users d) = [u]"
  then have "u \<in> set (filter (\<lambda>u. email u = e) (users d))" by simp
  then have "email u = e" by simp
  with f show "request_password_reset svc d req e =
          Inr ([Send_email e (username u) (Reset_link (base_url req) (create_reset_token svc (clock req) e))],
               ''Password reset instructions sent to your email'')"
    by (simp add: request_password_reset_def get_user_by_email_def scalar_one_or_none_def)
next
  fix x assume ok: "request_password_reset svc d req e = Inr x"
  show "\<exists>u\<in>set (users d). email u = e"
  proof (rule ccontr)
    assume "\<not> (\<exists>u\<in>set (users d). email u = e)"
    then have "filter (\<lambda>u. email u = e) (users d) = []" by (simp add: filter_empty_conv)
    with ok show False
      by (simp add: request_password_reset_def get_user_by_email_def scalar_one_or_none_def)
  qed
qed

theorem request_password_reset_reveals_witness:
  "filter (\<lambda>u. email u = ''alice@x.com'') (users db_alice) = [alice]
   \<and> request_password_reset svc0 db_alice req0 ''alice@x.com'' =
       Inr ([Send_email ''alice@x.com'' ''alice''
              (Reset_link ''http://h/'' (create_reset_token svc0 1000 ''alice@x.com''))],
            ''Password reset instructions sent to your email'')
   \<and> users db_empty = []
   \<and> request_password_reset svc0 db_empty req0 ''bob@x.com'' = Inl (HTTPException 404 ''User not found'')"
proof -
  have f: "filter (\<lambda>u. email u = ''alice@x.com'') (users db_alice) = [alice]"
    by (simp add: db_alice_def alice_def)
  have e: "users db_empty = []" by (simp add: db_empty_def)
  then have n: "\<forall>u\<in>set (users db_empty). email u \<noteq> ''bob@x.com''" by simp
  from request_password_reset_reveals[of db_alice "''alice@x.com''" svc0 req0] f
  have "request_password_reset svc0 db_alice req0 ''alice@x.com'' =
       Inr ([Send_email ''alice@x.com'' (username alice)
              (Reset_link (base_url req0) (create_reset_token svc0 (clock req0) ''alice@x.com''))],
            ''Password reset instructions sent to your email'')" by blast
  moreover from request_password_reset_reveals[of db_empty "''bob@x.com''" svc0 req0] n
  have "request_password_reset svc0 db_empty req0 ''bob@x.com'' = Inl (HTTPException 404 ''User not found'')"
    by blast
  ultimately show ?thesis using f e by (simp add: alice_def req0_def)
qed

text \<open>
  C2: token hashes being unique, after a successful \<^verbatim>\<open>refresh\<close> presenting the secret
  \<open>s\<close> the presented row is still stored and is revoked at the time of the request, so
  \<^verbatim>\<open>get_active_token\<close> finds nothing for \<open>s\<close> at any time and every later
  \<^verbatim>\<open>refresh\<close> with \<open>s\<close> fails Unauthorized; the new refresh secret is active and
  accepted until its expiry, and the new access token decodes to the same user until
  its own.
\<close>

theorem refresh_rotation_single_use:
  assumes "distinct (map token_hash (refresh_tokens d))"
    and "refresh svc d req s = (d', Inr resp)"
  shows "(\<forall>t. get_active_token (refresh_tokens d') (hash_token svc s) t = None)
     \<and> (\<exists>r\<in>set (refresh_tokens d'). token_hash r = hash_token svc s)
     \<and> (\<forall>r\<in>set (refresh_tokens d'). token_hash r = hash_token svc s \<longrightarrow> revoked_at r = Some (clock req))
     \<and> (\<forall>req'. snd (refresh svc d' req' s) = Inl Unauthorized)
     \<and> refresh_token resp = new_secret req
     \<and> (\<exists>u. (\<forall>t. t < clock req + timedelta_days (REFRESH_TOKEN_EXPIRE_DAYS svc) \<longrightarrow>
                 get_active_token (refresh_tokens d') (hash_token svc (refresh_token resp)) t \<noteq> None
                 \<and> validate_refresh_token svc d' t (refresh_token resp) = (d', Inr u))
           \<and> (\<forall>t. t < clock req + ACCESS_TOKEN_EXPIRE_MINUTES svc * 60000000 \<longrightarrow>
                 (\<exists>c. decode (SECRET_KEY svc) t (access_token resp) = Inr c \<and> ac_sub c = username u)))
     \<and> distinct (map token_hash (refresh_tokens d'))"
proof -
  let ?rows = "refresh_tokens d"
  let ?h = "hash_token svc s"
  let ?hn = "hash_token svc (new_secret req)"
  let ?exp = "clock req + timedelta_days (REFRESH_TOKEN_EXPIRE_DAYS svc)"
  from refresh_success[OF assms(2)] obtain row user where
    a: "get_active_token ?rows ?h (clock req) = Some row" and
    u: "first (filter (\<lambda>u. u_id u = user_id row) (users d)) = Some user" and
    fresh: "?hn \<notin> token_hash ` set ?rows" and
    d': "d' = revoke_refresh_token svc
             (d\<lparr>refresh_tokens := ?rows @
                [\<lparr>rt_id = next_id ?rows, user_id = u_id user,
                  token_hash = ?hn, created_at = clock req,
                  expired_at = ?exp,
                  revoked_at = None, ip_address = client req,
                  user_agent = header_user_agent req\<rparr>]\<rparr>)
             (clock req) s" and
    resp: "resp = \<lparr>access_token = create_access_token svc req (username user),
               token_type = ''bearer'', refresh_token = new_secret req\<rparr>"
    by blast
  define new where "new = \<lparr>rt_id = next_id ?rows, user_id = u_id user,
                  token_hash = ?hn, created_at = clock req,
                  expired_at = ?exp,
                  revoked_at = None, ip_address = client req,
                  user_agent = header_user_agent req\<rparr>"
  have new_simps: "token_hash new = ?hn" "rt_id new = next_id ?rows" "revoked_at new = None"
    "expired_at new = ?exp" "user_id new = u_id user"
    by (simp_all add: new_def)
  from get_active_token_Some[OF a] have
    row: "row \<in> set ?rows" "token_hash row = ?h" "revoked_at row = None" by simp_all
  have neq: "?hn \<noteq> ?h" using fresh row(1,2) by force
  have rows': "refresh_tokens d' = revoke_token ?rows row (clock req) @ [new]"
    unfolding d' new_def[symmetric]
    by (rule rotated_rows[OF assms(1) row(1,3) _ new_simps(2)])
       (simp_all add: new_simps fresh row(2))
  have users': "users d' = users d"
    unfolding d' by (simp add: revoke_refresh_token_users)
  have hashes: "map token_hash (refresh_tokens d') = map token_hash ?rows @ [?hn]"
    by (simp add: rows' revoke_token_hashes new_simps)
  have dist': "distinct (map token_hash (refresh_tokens d'))"
    unfolding hashes using assms(1) fresh by simp
  have revoked: "revoked_at r = Some (clock req)"
    if "r \<in> set (refresh_tokens d')" "token_hash r = ?h" for r
  proof -
    from that neq have "r \<in> set (revoke_token ?rows row (clock req))"
      by (auto simp: rows' new_simps)
    then show ?thesis
      using revoke_token_revoked[OF assms(1) row(1)] that(2) row(2) by simp
  qed
  have none: "get_active_token (refresh_tokens d') ?h t = None" for t
    unfolding get_active_token_def first_filter_None using revoked by auto
  have ex: "\<exists>r\<in>set (refresh_tokens d'). token_hash r = ?h"
  proof -
    have "?h \<in> set (map token_hash (refresh_tokens d'))"
      unfolding hashes using row(1,2) by force
    then show ?thesis by auto
  qed
  have again: "snd (refresh svc d' req' s) = Inl Unauthorized" for req'
    by (intro refresh_validate_fails validate_None none)
  have new_mem: "new \<in> set (refresh_tokens d')" by (simp add: rows')
  have act: "get_active_token (refresh_tokens d') ?hn t = Some new" if "t < ?exp" for t
    using get_active_token_unique[OF dist' new_mem, of t] that by (simp add: new_simps)
  have usr: "first (filter (\<lambda>u. u_id u = user_id new) (users d')) = Some user"
    unfolding users' new_simps by (rule first_user_again[OF u])
  have val: "validate_refresh_token svc d' t (new_secret req) = (d', Inr user)" if "t < ?exp" for t
    by (rule validate_active[OF act[OF that] usr])
  have dec: "\<exists>c. decode (SECRET_KEY svc) t (access_token resp) = Inr c \<and> ac_sub c = username user"
    if "t < clock req + ACCESS_TOKEN_EXPIRE_MINUTES svc * 60000000" for t
    using decode_issued[OF that] by (simp add: resp create_access_token_def)
  have rt: "refresh_token resp = new_secret req" by (simp add: resp)
  have pair: "\<exists>u. (\<forall>t. t < ?exp \<longrightarrow>
                 get_active_token (refresh_tokens d') (hash_token svc (refresh_token resp)) t \<noteq> None
                 \<and> validate_refresh_token svc d' t (refresh_token resp) = (d', Inr u))
           \<and> (\<forall>t. t < clock req + ACCESS_TOKEN_EXPIRE_MINUTES svc * 60000000 \<longrightarrow>
                 (\<exists>c. decode (SECRET_KEY svc) t (access_token resp) = Inr c \<and> ac_sub c = username u))"
    unfolding rt using act val dec by (intro exI[of _ user]) simp
  show ?thesis
    using none ex revoked again rt pair dist' by (intro conjI) blast+
qed

theorem refresh_rotation_single_use_witness:
  "distinct (map token_hash (refresh_tokens db_login))
   \<and> refresh svc0 db_login req0 ''s1'' = (db_rotated, Inr resp_rotated)
   \<and> get_active_token (refresh_tokens db_rotated) (hash_token svc0 ''s1'') 1001 = None
   \<and> snd (refresh svc0 db_rotated req1 ''s1'') = Inl Unauthorized
   \<and> get_active_token (refresh_tokens db_rotated) (hash_token svc0 ''s2'') 1001 \<noteq> None"
proof -
  have dist: "distinct (map token_hash (refresh_tokens db_login))"
    by (simp add: db_login_def)
  have run: "refresh svc0 db_login req0 ''s1'' = (db_rotated, Inr resp_rotated)"
    by (simp add: refresh_def validate_refresh_token_def get_active_token_def first_def
        create_access_token_def issue_access_def create_refresh_token_def save_token_def
        create_def next_id_def int32_max_def revoke_refresh_token_def get_by_token_hash_def revoke_token_def
        db_login_def db_rotated_def resp_rotated_def row_s1_def alice_def svc0_def req0_def
        timedelta_days_def Let_def)
  note inst = refresh_rotation_single_use[OF dist run]
  have 1: "get_active_token (refresh_tokens db_rotated) (hash_token svc0 ''s1'') 1001 = None"
    using inst by blast
  have 2: "snd (refresh svc0 db_rotated req1 ''s1'') = Inl Unauthorized"
    using inst by blast
  have lt: "(1001::int) < clock req0 + timedelta_days (REFRESH_TOKEN_EXPIRE_DAYS svc0)"
    by (simp add: req0_def svc0_def timedelta_days_def)
  have rt: "refresh_token resp_rotated = ''s2''" by (simp add: resp_rotated_def)
  have 3: "get_active_token (refresh_tokens db_rotated) (hash_token svc0 ''s2'') 1001 \<noteq> None"
    using inst lt rt by auto
  show ?thesis using dist run 1 2 3 by (intro conjI)
qed

text \<open>
  C3: token hashes and ids being unique, \<^verbatim>\<open>refresh\<close> presenting a secret whose row is
  already revoked fails Unauthorized; it revokes, at the time of the request, every
  other active row of that user and changes nothing else; no row is added, and no
  row of that user is active afterwards.
\<close>

theorem refresh_reuse_detection:
  assumes "distinct (map token_hash (refresh_tokens d))" and "distinct (map rt_id (refresh_tokens d))"
    and "row \<in> set (refresh_tokens d)" and "token_hash row = hash_token svc s"
    and "revoked_at row \<noteq> None"
  shows "refresh svc d req s =
           (d\<lparr>refresh_tokens :=
                 map (\<lambda>r. if user_id r = user_id row \<and> rt_id r \<noteq> rt_id row \<and> active r (clock req)
                           then r\<lparr>revoked_at := Some (clock req)\<rparr> else r) (refresh_tokens d)\<rparr>,
            Inl Unauthorized)
     \<and> (\<forall>r\<in>set (refresh_tokens (fst (refresh svc d req s))).
           user_id r = user_id row \<longrightarrow> \<not> active r (clock req))
     \<and> map token_hash (refresh_tokens (fst (refresh svc d req s))) = map token_hash (refresh_tokens d)
     \<and> users (fst (refresh svc d req s)) = users d"
proof -
  let ?f = "\<lambda>r. if user_id r = user_id row \<and> rt_id r \<noteq> rt_id row \<and> active r (clock req)
                 then r\<lparr>revoked_at := Some (clock req)\<rparr> else r"
  have eq: "refresh svc d req s = (d\<lparr>refresh_tokens := map ?f (refresh_tokens d)\<rparr>, Inl Unauthorized)"
    by (simp add: refresh_def validate_reuse[OF assms(1,3,4,5)] revoke_other_active_map[OF assms(2)])
  have inactive: "\<not> active r' (clock req)"
    if "r' \<in> set (map ?f (refresh_tokens d))" "user_id r' = user_id row" for r'
  proof -
    from that(1) obtain r where r: "r \<in> set (refresh_tokens d)" "r' = ?f r" by auto
    show ?thesis
    proof (cases "rt_id r = rt_id row")
      case True
      have "r = row" by (rule distinct_map_eq[OF assms(2) r(1) assms(3) True])
      with r(2) assms(5) show ?thesis by (simp add: active_def)
    next
      case False
      with r(2) that(2) show ?thesis by (auto simp: active_def split: if_splits)
    qed
  qed
  have hashes: "map token_hash (map ?f (refresh_tokens d)) = map token_hash (refresh_tokens d)"
    by (simp add: comp_def if_distrib cong: if_cong)
  have fst_eq: "fst (refresh svc d req s) = d\<lparr>refresh_tokens := map ?f (refresh_tokens d)\<rparr>"
    by (simp only: eq fst_conv)
  have rows_eq: "refresh_tokens (fst (refresh svc d req s)) = map ?f (refresh_tokens d)"
    by (simp only: fst_eq) simp
  have users_eq: "users (fst (refresh svc d req s)) = users d"
    by (simp only: fst_eq) simp
  have c2: "\<forall>r\<in>set (refresh_tokens (fst (refresh svc d req s))).
           user_id r = user_id row \<longrightarrow> \<not> active r (clock req)"
    unfolding rows_eq using inactive by blast
  have c3: "map token_hash (refresh_tokens (fst (refresh svc d req s))) = map token_hash (refresh_tokens d)"
    unfolding rows_eq by (rule hashes)
  from eq c2 c3 users_eq show ?thesis by (intro conjI)
qed

theorem refresh_reuse_detection_witness:
  "distinct (map token_hash (refresh_tokens db_reuse)) \<and> distinct (map rt_id (refresh_tokens db_reuse))
   \<and> row_old \<in> set (refresh_tokens db_reuse) \<and> token_hash row_old = hash_token svc0 ''s1''
   \<and> revoked_at row_old \<noteq> None
   \<and> refresh svc0 db_reuse req1 ''s1''
       = (db_reuse\<lparr>refresh_tokens := [row_old, row_live\<lparr>revoked_at := Some 2000\<rparr>, row_bob]\<rparr>,
          Inl Unauthorized)"
proof -
  have h1: "distinct (map token_hash (refresh_tokens db_reuse))"
    by (simp add: db_reuse_def row_old_def row_live_def row_bob_def)
  have h2: "distinct (map rt_id (refresh_tokens db_reuse))"
    by (simp add: db_reuse_def row_old_def row_live_def row_bob_def)
  have h3: "row_old \<in> set (refresh_tokens db_reuse)" by (simp add: db_reuse_def)
  have h4: "token_hash row_old = hash_token svc0 ''s1''" by (simp add: row_old_def svc0_def)
  have h5: "revoked_at row_old \<noteq> None" by (simp add: row_old_def)
  have "refresh svc0 db_reuse req1 ''s1'' =
           (db_reuse\<lparr>refresh_tokens :=
                 map (\<lambda>r. if user_id r = user_id row_old \<and> rt_id r \<noteq> rt_id row_old \<and> active r (clock req1)
                           then r\<lparr>revoked_at := Some (clock req1)\<rparr> else r) (refresh_tokens db_reuse)\<rparr>,
            Inl Unauthorized)"
    using refresh_reuse_detection[OF h1 h2 h3 h4 h5, of req1] by blast
  also have "map (\<lambda>r. if user_id r = user_id row_old \<and> rt_id r \<noteq> rt_id row_old \<and> active r (clock req1)
                           then r\<lparr>revoked_at := Some (clock req1)\<rparr> else r) (refresh_tokens db_reuse)
             = [row_old, row_live\<lparr>revoked_at := Some 2000\<rparr>, row_bob]"
    by (simp add: db_reuse_def row_old_def row_live_def row_bob_def req1_def active_def)
  finally show ?thesis using h1 h2 h3 h4 h5 by (intro conjI)
qed

text \<open>
  C5, as stated, fails: \<^verbatim>\<open>revoke_token\<close> assigns \<^verbatim>\<open>revoked_at\<close> without looking at
  it, so revoking a record revoked at time 5 again at time 9 moves its timestamp to 9.
\<close>

theorem revoke_token_not_noop_counterexample:
  "revoked_at row_a = Some 5
   \<and> revoked_at (hd (revoke_token [row_a] row_a 9)) = Some 9
   \<and> revoke_token [row_a] row_a 9 \<noteq> [row_a]"
  by (simp add: revoke_token_def row_a_def)

text \<open>
  C5 (amended): revoking a stored record never fails and leaves it revoked, whether or
  not it was revoked before: its \<^verbatim>\<open>revoked_at\<close> becomes the current time and nothing
  else changes, in this row or any other. It is a no-op exactly when the record's
  \<^verbatim>\<open>revoked_at\<close> already equals the current time, and of two revocations the later
  timestamp stays.
\<close>

theorem revoke_token_overwrites:
  assumes "rt \<in> set rows" and "distinct (map rt_id rows)"
  shows "rt\<lparr>revoked_at := Some t\<rparr> \<in> set (revoke_token rows rt t)
    \<and> (\<forall>r\<in>set (revoke_token rows rt t). rt_id r = rt_id rt \<longrightarrow> r = rt\<lparr>revoked_at := Some t\<rparr>)
    \<and> (\<forall>r\<in>set rows. rt_id r \<noteq> rt_id rt \<longrightarrow> r \<in> set (revoke_token rows rt t))
    \<and> length (revoke_token rows rt t) = length rows
    \<and> (revoke_token rows rt t = rows \<longleftrightarrow> revoked_at rt = Some t)
    \<and> revoke_token (revoke_token rows rt t) rt t' = revoke_token rows rt t'"
proof (intro conjI ballI impI)
  show "rt\<lparr>revoked_at := Some t\<rparr> \<in> set (revoke_token rows rt t)"
    using assms(1) by (force simp: revoke_token_def)
next
  fix r assume r: "r \<in> set (revoke_token rows rt t)" "rt_id r = rt_id rt"
  then obtain r0 where r0: "r0 \<in> set rows"
      "r = (if rt_id r0 = rt_id rt then r0\<lparr>revoked_at := Some t\<rparr> else r0)"
    by (auto simp: revoke_token_def)
  with r(2) have "rt_id r0 = rt_id rt" by (auto split: if_splits)
  then have "r0 = rt" using distinct_map_eq[OF assms(2) r0(1) assms(1)] by simp
  with r0(2) show "r = rt\<lparr>revoked_at := Some t\<rparr>" by simp
next
  fix r assume "r \<in> set rows" "rt_id r \<noteq> rt_id rt"
  then show "r \<in> set (revoke_token rows rt t)"
    by (force simp: revoke_token_def)
next
  show "length (revoke_token rows rt t) = length rows" by (simp add: revoke_token_def)
next
  show "revoke_token rows rt t = rows \<longleftrightarrow> revoked_at rt = Some t"
    using revoke_token_fixed[OF assms] .
next
  show "revoke_token (revoke_token rows rt t) rt t' = revoke_token rows rt t'"
    by (rule revoke_token_twice)
qed

theorem revoke_token_overwrites_witness:
  "row_a \<in> set [row_a, row_b] \<and> distinct (map rt_id [row_a, row_b])
   \<and> revoked_at row_a = Some 5
   \<and> revoke_token [row_a, row_b] row_a 9 = [row_a\<lparr>revoked_at := Some 9\<rparr>, row_b]
   \<and> revoke_token [row_a, row_b] row_a 9 \<noteq> [row_a, row_b]"
proof -
  have a: "row_a \<in> set [row_a, row_b]" by simp
  have d: "distinct (map rt_id [row_a, row_b])" by (simp add: row_a_def row_b_def)
  have "revoke_token [row_a, row_b] row_a 9 = [row_a, row_b] \<longleftrightarrow> revoked_at row_a = Some 9"
    using revoke_token_overwrites[OF a d, of 9 9] by blast
  moreover have "revoked_at row_a = Some 5" by (simp add: row_a_def)
  moreover have "revoke_token [row_a, row_b] row_a 9 = [row_a\<lparr>revoked_at := Some 9\<rparr>, row_b]"
    by (simp add: revoke_token_def row_a_def row_b_def)
  ultimately show ?thesis using a d by simp
qed

text \<open>
  C6: \<^verbatim>\<open>get_active_token\<close> returns a record exactly when a row with that hash exists
  whose \<^verbatim>\<open>expired_at\<close> is strictly later than the current time and whose
  \<^verbatim>\<open>revoked_at\<close> is null, and the record returned is such a row; it returns none when
  no row has the hash and, token hashes being unique, when the row with the hash is
  expired or revoked.
\<close>

theorem get_active_token_exactly:
  "(get_active_token rows h t \<noteq> None \<longleftrightarrow>
      (\<exists>r\<in>set rows. token_hash r = h \<and> t < expired_at r \<and> revoked_at r = None))
   \<and> (\<forall>r. get_active_token rows h t = Some r \<longrightarrow>
        r \<in> set rows \<and> token_hash r = h \<and> t < expired_at r \<and> revoked_at r = None)
   \<and> (h \<notin> token_hash ` set rows \<longrightarrow> get_active_token rows h t = None)
   \<and> (\<forall>r\<in>set rows. distinct (map token_hash rows) \<longrightarrow> token_hash r = h \<longrightarrow>
        get_active_token rows h t = (if t < expired_at r \<and> revoked_at r = None then Some r else None))"
proof (intro conjI allI ballI impI)
  show "get_active_token rows h t \<noteq> None \<longleftrightarrow>
      (\<exists>r\<in>set rows. token_hash r = h \<and> t < expired_at r \<and> revoked_at r = None)"
    unfolding get_active_token_def by (auto simp: first_filter_None)
next
  fix r assume "get_active_token rows h t = Some r"
  then show "r \<in> set rows" "token_hash r = h" "t < expired_at r" "revoked_at r = None"
    unfolding get_active_token_def by (auto dest: first_filter_Some)
next
  assume "h \<notin> token_hash ` set rows"
  then show "get_active_token rows h t = None"
    unfolding get_active_token_def by (auto simp: first_filter_None)
next
  fix r assume r: "r \<in> set rows" "distinct (map token_hash rows)" "token_hash r = h"
  have "filter (\<lambda>x. token_hash x = token_hash r \<and> (t < expired_at x \<and> revoked_at x = None)) rows
        = (if t < expired_at r \<and> revoked_at r = None then [r] else [])"
    using filter_unique[OF r(2) r(1)] .
  with r(3) show "get_active_token rows h t = (if t < expired_at r \<and> revoked_at r = None then Some r else None)"
    unfolding get_active_token_def by (auto simp: first_def)
qed

theorem get_active_token_exactly_witness:
  "row_b \<in> set [row_a, row_b] \<and> distinct (map token_hash [row_a, row_b]) \<and> token_hash row_b = ''h2''
   \<and> get_active_token [row_a, row_b] ''h2'' 998 = Some row_b
   \<and> get_active_token [row_a, row_b] ''h2'' 999 = None
   \<and> row_a \<in> set [row_a, row_b] \<and> token_hash row_a = ''h1'' \<and> revoked_at row_a \<noteq> None
   \<and> get_active_token [row_a, row_b] ''h1'' 0 = None
   \<and> ''h9'' \<notin> token_hash ` set [row_a, row_b]
   \<and> get_active_token [row_a, row_b] ''h9'' 0 = None"
proof -
  have b: "row_b \<in> set [row_a, row_b]" and a: "row_a \<in> set [row_a, row_b]" by simp_all
  have d: "distinct (map token_hash [row_a, row_b])" by (simp add: row_a_def row_b_def)
  have hb: "token_hash row_b = ''h2''" and ha: "token_hash row_a = ''h1''"
    by (simp_all add: row_a_def row_b_def)
  have n: "''h9'' \<notin> token_hash ` set [row_a, row_b]" by (simp add: row_a_def row_b_def)
  have 1: "get_active_token [row_a, row_b] ''h2'' 998 = Some row_b"
    using get_active_token_exactly[of "[row_a, row_b]" "''h2''" 998] b d hb
    by (simp add: row_b_def)
  have 2: "get_active_token [row_a, row_b] ''h2'' 999 = None"
    using get_active_token_exactly[of "[row_a, row_b]" "''h2''" 999] b d hb
    by (simp add: row_b_def)
  have 3: "get_active_token [row_a, row_b] ''h1'' 0 = None"
    using get_active_token_exactly[of "[row_a, row_b]" "''h1''" 0] a d ha
    by (simp add: row_a_def)
  have 4: "get_active_token [row_a, row_b] ''h9'' 0 = None"
    using get_active_token_exactly[of "[row_a, row_b]" "''h9''" 0] n by blast
  have r: "revoked_at row_a \<noteq> None" by (simp add: row_a_def)
  show ?thesis using a b d ha hb n r 1 2 3 4 by blast
qed

text \<open>
  C7: a sweeper run at time \<open>t\<close> keeps exactly the rows that are not stale (stale:
  \<^verbatim>\<open>expired_at < t\<close>, or \<^verbatim>\<open>revoked_at\<close> set and earlier than \<open>t\<close> minus seven days),
  unchanged and in their order; in particular every active row stays.
\<close>

theorem cleanup_deletes_exactly_stale:
  "cleanup_expired_tokens rows t = filter (\<lambda>r. \<not> stale r t) rows
   \<and> set (cleanup_expired_tokens rows t) = {r \<in> set rows. \<not> stale r t}
   \<and> (\<forall>r\<in>set rows. active r t \<longrightarrow> r \<in> set (cleanup_expired_tokens rows t))"
  by (auto simp: cleanup_expired_tokens_def cleanup_where_stale stale_def active_def)

theorem cleanup_deletes_exactly_stale_witness:
  "active row_active sweep_time
   \<and> row_active \<in> set [row_expired8, row_revoked8, row_active]
   \<and> stale row_expired8 sweep_time \<and> stale row_revoked8 sweep_time
   \<and> cleanup_expired_tokens [row_expired8, row_revoked8, row_active] sweep_time = [row_active]"
proof -
  have a: "active row_active sweep_time"
    by (simp add: active_def row_active_def sweep_time_def timedelta_days_def)
  have s1: "stale row_expired8 sweep_time"
    by (simp add: stale_def row_expired8_def sweep_time_def timedelta_days_def)
  have s2: "stale row_revoked8 sweep_time"
    by (simp add: stale_def row_revoked8_def sweep_time_def timedelta_days_def)
  have s3: "\<not> stale row_active sweep_time"
    by (simp add: stale_def row_active_def sweep_time_def timedelta_days_def)
  have "cleanup_expired_tokens [row_expired8, row_revoked8, row_active] sweep_time
        = filter (\<lambda>r. \<not> stale r sweep_time) [row_expired8, row_revoked8, row_active]"
    using cleanup_deletes_exactly_stale[of "[row_expired8, row_revoked8, row_active]" sweep_time]
    by blast
  with a s1 s2 s3 show ?thesis by simp
qed

text \<open>
  C8, as stated, fails: a row that expired one microsecond before the sweep, never
  revoked, is deleted by that sweep; the DELETE compares \<^verbatim>\<open>expired_at\<close> with \<open>now\<close>,
  not with the cutoff.
\<close>

theorem sweep_no_grace_after_expiry_counterexample:
  "revoked_at row_b = None \<and> expired_at row_b < 1000 \<and> 1000 - timedelta_days 7 < expired_at row_b
   \<and> row_b \<notin> set (cleanup_expired_tokens [row_b] 1000)"
  by (simp add: cleanup_expired_tokens_def cleanup_where_def sql_lt_def sql_is_not_null_def
      row_b_def timedelta_days_def)

text \<open>
  C8 (amended): the grace window of seven days is for revocation only. A row survives
  every sweep that runs no later than its \<^verbatim>\<open>expired_at\<close> and, if it is revoked, no later
  than seven days after its revocation; a row whose \<^verbatim>\<open>expired_at\<close> is before the sweep
  is deleted by it.
\<close>

theorem sweep_grace_is_for_revocation_only:
  "(r \<in> set rows \<longrightarrow>
     (\<forall>t\<in>set sweeps. t \<le> expired_at r \<and> (\<forall>t0. revoked_at r = Some t0 \<longrightarrow> t - timedelta_days 7 \<le> t0)) \<longrightarrow>
     r \<in> set (foldl cleanup_expired_tokens rows sweeps))
   \<and> (expired_at r < t \<longrightarrow> r \<notin> set (cleanup_expired_tokens rows t))"
  using survives_sweeps[of r rows sweeps] expired_purged[of r t rows] by blast

theorem sweep_grace_is_for_revocation_only_witness:
  "row_revoked6 \<in> set [row_expired8, row_revoked6]
   \<and> timedelta_days 29 \<le> expired_at row_revoked6 \<and> sweep_time \<le> expired_at row_revoked6
   \<and> revoked_at row_revoked6 = Some (timedelta_days 24)
   \<and> sweep_time - timedelta_days 7 \<le> timedelta_days 24
   \<and> row_revoked6 \<in> set (foldl cleanup_expired_tokens [row_expired8, row_revoked6]
                              [timedelta_days 29, sweep_time])
   \<and> expired_at row_expired8 < sweep_time
   \<and> row_expired8 \<notin> set (cleanup_expired_tokens [row_expired8, row_revoked6] sweep_time)"
proof -
  have m: "row_revoked6 \<in> set [row_expired8, row_revoked6]" by simp
  have f: "timedelta_days 29 \<le> expired_at row_revoked6" "sweep_time \<le> expired_at row_revoked6"
    "revoked_at row_revoked6 = Some (timedelta_days 24)"
    "sweep_time - timedelta_days 7 \<le> timedelta_days 24"
    by (simp_all add: row_revoked6_def sweep_time_def timedelta_days_def)
  have h: "\<forall>t\<in>set [timedelta_days 29, sweep_time].
         t \<le> expired_at row_revoked6
         \<and> (\<forall>t0. revoked_at row_revoked6 = Some t0 \<longrightarrow> t - timedelta_days 7 \<le> t0)"
    by (simp add: row_revoked6_def sweep_time_def timedelta_days_def)
  have e: "expired_at row_expired8 < sweep_time"
    by (simp add: row_expired8_def sweep_time_def timedelta_days_def)
  from sweep_grace_is_for_revocation_only[of row_revoked6 "[row_expired8, row_revoked6]"
      "[timedelta_days 29, sweep_time]"] m h
  have 1: "row_revoked6 \<in> set (foldl cleanup_expired_tokens [row_expired8, row_revoked6]
                              [timedelta_days 29, sweep_time])" by blast
  from sweep_grace_is_for_revocation_only[of row_expired8 "[row_expired8, row_revoked6]" _ sweep_time] e
  have 2: "row_expired8 \<notin> set (cleanup_expired_tokens [row_expired8, row_revoked6] sweep_time)"
    by blast
  show ?thesis using m f e 1 2 by blast
qed

text \<open>
  C9: with no user for the email, \<^verbatim>\<open>request_email\<close> does not return "Check your email":
  the lookup gives None and reading \<^verbatim>\<open>user.confirmed\<close> raises AttributeError before the
  guard \<^verbatim>\<open>if user:\<close> is reached. The lookup here is that of the user repository.
\<close>

theorem request_email_unknown_raises:
  "get_user_by_email (users db_empty) ''nobody@x.com'' = Inr None
   \<and> request_email (get_user_by_email (users db_empty)) req0 ''nobody@x.com'' = Inl AttributeError"
  by (simp add: request_email_def getattr_confirmed_def get_user_by_email_def
      scalar_one_or_none_def db_empty_def)

text \<open>
  C10: a save succeeds when the hash is not yet stored, the user exists and the values
  fit their columns; and whenever \<^verbatim>\<open>save_token\<close> succeeds, the hash was not stored
  before, exactly one row is appended, with the arguments as its fields, a fresh id and
  \<^verbatim>\<open>revoked_at\<close> unset, and \<^verbatim>\<open>get_active_token\<close> returns that row for the hash at
  every time strictly before \<^verbatim>\<open>expired_at\<close>.
\<close>

theorem save_token_round_trip:
  "(h \<notin> token_hash ` set rows \<and> uid \<in> u_id ` set us \<and> uid \<le> int32_max
      \<and> next_id rows \<le> int32_max \<and> (\<forall>a. ip = Some a \<longrightarrow> length a \<le> 50)
     \<longrightarrow> (\<exists>row. save_token us rows t uid h exp_at ip ua = Inr (rows @ [row], row)))
   \<and> (\<forall>rows' row. save_token us rows t uid h exp_at ip ua = Inr (rows', row) \<longrightarrow>
         h \<notin> token_hash ` set rows \<and> rows' = rows @ [row]
         \<and> revoked_at row = None \<and> token_hash row = h \<and> user_id row = uid
         \<and> expired_at row = exp_at \<and> ip_address row = ip \<and> user_agent row = ua
         \<and> rt_id row \<notin> rt_id ` set rows
         \<and> (\<forall>t'. t' < exp_at \<longrightarrow> get_active_token rows' h t' = Some row))"
proof (intro conjI allI impI)
  assume "h \<notin> token_hash ` set rows \<and> uid \<in> u_id ` set us \<and> uid \<le> int32_max
      \<and> next_id rows \<le> int32_max \<and> (\<forall>a. ip = Some a \<longrightarrow> length a \<le> 50)"
  then show "\<exists>row. save_token us rows t uid h exp_at ip ua = Inr (rows @ [row], row)"
    using save_token_ok[of h rows uid us ip t exp_at ua] by blast
next
  fix rows' row
  assume s: "save_token us rows t uid h exp_at ip ua = Inr (rows', row)"
  note f = save_token_Inr[OF s]
  from f show "h \<notin> token_hash ` set rows" "rows' = rows @ [row]" by simp_all
  have row: "row = \<lparr>rt_id = next_id rows, user_id = uid, token_hash = h, created_at = t,
               expired_at = exp_at, revoked_at = None, ip_address = ip, user_agent = ua\<rparr>"
    using f by simp
  show "revoked_at row = None" "token_hash row = h" "user_id row = uid" "expired_at row = exp_at"
    "ip_address row = ip" "user_agent row = ua"
    by (simp_all add: row)
  have "rt_id row = next_id rows" by (simp add: row)
  then show "rt_id row \<notin> rt_id ` set rows"
    using next_id_fresh[of _ rows] by fastforce
  fix t' assume "t' < exp_at"
  then have "get_active_token (rows @ [row]) (token_hash row) t' = Some row"
    using f by (intro get_active_token_appended) (simp_all add: row)
  then show "get_active_token rows' h t' = Some row"
    using f by (simp add: row)
qed

theorem save_token_round_trip_witness:
  "''h3'' \<notin> token_hash ` set [row_a, row_b] \<and> 1 \<in> u_id ` set [alice] \<and> 1 \<le> int32_max
   \<and> next_id [row_a, row_b] \<le> int32_max \<and> length ''127.0.0.1'' \<le> 50
   \<and> (\<exists>row. save_token [alice] [row_a, row_b] 10 1 ''h3'' 2000 (Some ''127.0.0.1'') None
               = Inr ([row_a, row_b] @ [row], row)
        \<and> revoked_at row = None
        \<and> get_active_token ([row_a, row_b] @ [row]) ''h3'' 1999 = Some row)"
proof -
  have h: "''h3'' \<notin> token_hash ` set [row_a, row_b]" by (simp add: row_a_def row_b_def)
  have u: "1 \<in> u_id ` set [alice]" by (simp add: alice_def)
  have b: "1 \<le> int32_max" "next_id [row_a, row_b] \<le> int32_max"
    by (simp_all add: int32_max_def next_id_def row_a_def row_b_def)
  have l: "length ''127.0.0.1'' \<le> 50" by simp
  have l': "\<forall>a. Some ''127.0.0.1'' = Some a \<longrightarrow> length a \<le> 50" by simp
  note inst = save_token_round_trip[of "''h3''" "[row_a, row_b]" 1 "[alice]" "Some ''127.0.0.1''" 10 2000 None]
  from inst h u b l' obtain row where
    s: "save_token [alice] [row_a, row_b] 10 1 ''h3'' 2000 (Some ''127.0.0.1'') None
               = Inr ([row_a, row_b] @ [row], row)" by blast
  from inst s have "revoked_at row = None"
    "get_active_token ([row_a, row_b] @ [row]) ''h3'' 1999 = Some row" by auto
  with s h u b l show ?thesis by blast
qed

end
